theory Spec2Isabelle
  imports Complex_Main "HOL-Library.Multiset"
begin

section \<open>Bayesian Knowledge Tracing: the mastery update\<close>

text \<open>
  Source: \<^verbatim>\<open>Backend/backend/src/bkt_model.py\<close>, class \<^verbatim>\<open>BKTModel\<close>.
  Python floats are modelled as real numbers: the arithmetic of the model is exact, the
  decimal constants of the source (\<^verbatim>\<open>0.2\<close>, \<^verbatim>\<open>1.5\<close>, ...) are the rationals they
  denote, and rounding of binary floating point is not modelled. Equalities, the clamp and
  the guards of the update carry over to the rounded computation; a strict inequality
  between two results (the evidence ordering below) is a statement about the formulas
  only, since rounding can make two close results equal.
\<close>

record BKTModel =
  p_init :: real
  p_learn :: real
  p_slip :: real
  p_guess :: real

text \<open>The constructor's default arguments.\<close>

definition default_model :: BKTModel where
  "default_model = \<lparr>p_init = 0.3, p_learn = 0.2, p_slip = 0.1, p_guess = 0.25\<rparr>"

definition initialize_skill :: "BKTModel \<Rightarrow> string option \<Rightarrow> real" where
  "initialize_skill m skill_name = p_init m"

text \<open>
  \<^verbatim>\<open>question_difficulty: str = None\<close> is a \<open>string option\<close>. The test
  \<^verbatim>\<open>if question_difficulty:\<close> is Python truthiness: \<^verbatim>\<open>None\<close> and the empty string
  are false.
\<close>

definition truthy :: "string option \<Rightarrow> bool" where
  "truthy d = (case d of None \<Rightarrow> False | Some s \<Rightarrow> s \<noteq> [])"

text \<open>The local variables \<^verbatim>\<open>p_slip\<close> and \<^verbatim>\<open>p_learn\<close> after the difficulty adjustment
  (lines 193--207); \<^verbatim>\<open>p_guess\<close> is never reassigned.\<close>

definition adjusted_slip :: "BKTModel \<Rightarrow> string option \<Rightarrow> real" where
  "adjusted_slip m question_difficulty =
     (if truthy question_difficulty then
        (if question_difficulty = Some ''hard'' then min (p_slip m * 1.5) 0.2
         else if question_difficulty = Some ''easy'' then max (p_slip m * 0.7) 0.05
         else if question_difficulty = Some ''very_easy'' then max (p_slip m * 0.5) 0.03
         else p_slip m)
      else p_slip m)"

definition adjusted_learn :: "BKTModel \<Rightarrow> string option \<Rightarrow> real" where
  "adjusted_learn m question_difficulty =
     (if truthy question_difficulty then
        (if question_difficulty = Some ''hard'' then min (p_learn m * 1.2) 0.3
         else if question_difficulty = Some ''easy'' then max (p_learn m * 0.8) 0.1
         else if question_difficulty = Some ''very_easy'' then max (p_learn m * 0.6) 0.05
         else p_learn m)
      else p_learn m)"

text \<open>The local variables \<^verbatim>\<open>numerator\<close> and \<^verbatim>\<open>denominator\<close> (lines 210--221).\<close>

definition bayes_numerator :: "BKTModel \<Rightarrow> real \<Rightarrow> bool \<Rightarrow> string option \<Rightarrow> real" where
  "bayes_numerator m current_mastery is_correct d =
     (if is_correct then current_mastery * (1 - adjusted_slip m d)
      else current_mastery * adjusted_slip m d)"

definition bayes_denominator :: "BKTModel \<Rightarrow> real \<Rightarrow> bool \<Rightarrow> string option \<Rightarrow> real" where
  "bayes_denominator m current_mastery is_correct d =
     (if is_correct then
        current_mastery * (1 - adjusted_slip m d) + (1 - current_mastery) * p_guess m
      else
        current_mastery * adjusted_slip m d + (1 - current_mastery) * (1 - p_guess m))"

text \<open>
  Lines 224--230. The division is guarded by \<^verbatim>\<open>denominator > 0\<close>, so the model never
  divides by zero.
\<close>

definition p_known_given_response :: "BKTModel \<Rightarrow> real \<Rightarrow> bool \<Rightarrow> string option \<Rightarrow> real" where
  "p_known_given_response m current_mastery is_correct d =
     (if bayes_denominator m current_mastery is_correct d > 0
      then bayes_numerator m current_mastery is_correct d
            / bayes_denominator m current_mastery is_correct d
      else current_mastery)"

definition update_mastery :: "BKTModel \<Rightarrow> real \<Rightarrow> bool \<Rightarrow> string option \<Rightarrow> real" where
  "update_mastery m current_mastery is_correct d =
     (let known = p_known_given_response m current_mastery is_correct d;
          new_mastery = known + (1 - known) * adjusted_learn m d
      in min (max new_mastery 0) 1)"

subsection \<open>The update rule as the specification words it\<close>

text \<open>
  The specification's difficulty levels, with "absent" for a call without a difficulty,
  and the strings the source receives for them.
\<close>

datatype difficulty_level = VeryEasy | Easy | Medium | Hard | Absent

fun difficulty_arg :: "difficulty_level \<Rightarrow> string option" where
  "difficulty_arg VeryEasy = Some ''very_easy''"
| "difficulty_arg Easy = Some ''easy''"
| "difficulty_arg Medium = Some ''medium''"
| "difficulty_arg Hard = Some ''hard''"
| "difficulty_arg Absent = None"

fun spec_slip :: "real \<Rightarrow> difficulty_level \<Rightarrow> real" where
  "spec_slip s Hard = min (s * 1.5) 0.2"
| "spec_slip s Easy = max (s * 0.7) 0.05"
| "spec_slip s VeryEasy = max (s * 0.5) 0.03"
| "spec_slip s Medium = s"
| "spec_slip s Absent = s"

fun spec_learn :: "real \<Rightarrow> difficulty_level \<Rightarrow> real" where
  "spec_learn l Hard = min (l * 1.2) 0.3"
| "spec_learn l Easy = max (l * 0.8) 0.1"
| "spec_learn l VeryEasy = max (l * 0.6) 0.05"
| "spec_learn l Medium = l"
| "spec_learn l Absent = l"

definition spec_denominator :: "real \<Rightarrow> real \<Rightarrow> real \<Rightarrow> bool \<Rightarrow> real" where
  "spec_denominator s g current correct =
     (if correct then current * (1 - s) + (1 - current) * g
      else current * s + (1 - current) * (1 - g))"

definition spec_posterior :: "real \<Rightarrow> real \<Rightarrow> real \<Rightarrow> bool \<Rightarrow> real" where
  "spec_posterior s g current correct =
     (if correct then (current * (1 - s)) / (current * (1 - s) + (1 - current) * g)
      else (current * s) / (current * s + (1 - current) * (1 - g)))"

definition clamp :: "real \<Rightarrow> real \<Rightarrow> real \<Rightarrow> real" where
  "clamp x lo hi = (if x < lo then lo else if hi < x then hi else x)"

definition spec_update :: "BKTModel \<Rightarrow> real \<Rightarrow> bool \<Rightarrow> difficulty_level \<Rightarrow> real" where
  "spec_update m current correct lvl =
     (let s = spec_slip (p_slip m) lvl;
          l = spec_learn (p_learn m) lvl;
          posterior = spec_posterior s (p_guess m) current correct
      in clamp (posterior + (1 - posterior) * l) 0 1)"

section \<open>Question selection\<close>

text \<open>
  A question is a Python dict read with \<^verbatim>\<open>q.get('id')\<close>, \<^verbatim>\<open>q.get('skill')\<close> and
  \<^verbatim>\<open>q.get('difficulty')\<close>: a missing key reads as \<^verbatim>\<open>None\<close>. The other keys of the dict
  (text, options, ...) are the extension of the record; they only matter to equality of
  questions.
\<close>

record question =
  q_id :: "string option"
  q_skill :: "string option"
  q_difficulty :: "string option"

text \<open>
  A dict in insertion order is an association list; \<^verbatim>\<open>d[k]\<close> is only used for keys that
  were taken from \<^verbatim>\<open>d\<close>, where Python does not raise.
\<close>

type_synonym 'v pydict = "(string \<times> 'v) list"

definition dict_index :: "'v pydict \<Rightarrow> string \<Rightarrow> 'v" where
  "dict_index d k = the (map_of d k)"

definition dict_get :: "'v pydict \<Rightarrow> string \<Rightarrow> 'v \<Rightarrow> 'v" where
  "dict_get d k dflt = (case map_of d k of None \<Rightarrow> dflt | Some v \<Rightarrow> v)"

text \<open>
  \<^verbatim>\<open>random.choice(xs)\<close> returns \<^verbatim>\<open>xs[i]\<close> for a drawn index \<open>i < len(xs)\<close>; the draw is
  the parameter \<open>r\<close>, and every index is reached by some \<open>r\<close>. All calls in the source are on
  lists that were tested non-empty.
\<close>

definition random_choice :: "nat \<Rightarrow> 'a list \<Rightarrow> 'a" where
  "random_choice r xs = xs ! (r mod length xs)"

text \<open>\<^verbatim>\<open>min(xs, key=f)\<close> keeps the first of several minimal elements.\<close>

fun min_by :: "('a \<Rightarrow> real) \<Rightarrow> 'a \<Rightarrow> 'a list \<Rightarrow> 'a" where
  "min_by key best [] = best"
| "min_by key best (x # xs) = min_by key (if key x < key best then x else best) xs"

text \<open>Lines 256--261: the exclusion filter runs only for a non-empty \<^verbatim>\<open>exclude_ids\<close>.\<close>

definition filter_excluded ::
  "string list option \<Rightarrow> 'a question_scheme list \<Rightarrow> 'a question_scheme list" where
  "filter_excluded exclude_ids available_questions =
     (case exclude_ids of
        None \<Rightarrow> available_questions
      | Some ids \<Rightarrow>
          if ids = [] then available_questions
          else filter (\<lambda>q. q_id q \<notin> set (map Some ids)) available_questions)"

text \<open>Lines 267--275.\<close>

definition weak_skills :: "real pydict \<Rightarrow> real \<Rightarrow> real pydict" where
  "weak_skills skill_masteries threshold =
     filter (\<lambda>(skill, mastery). mastery < threshold) skill_masteries"

definition target_skill :: "real pydict \<Rightarrow> string option" where
  "target_skill weak =
     (case map fst weak of
        [] \<Rightarrow> None
      | k # ks \<Rightarrow> Some (min_by (dict_index weak) k ks))"

text \<open>Lines 278--302.\<close>

definition matching_questions ::
  "'a question_scheme list \<Rightarrow> string \<Rightarrow> 'a question_scheme list" where
  "matching_questions available t = filter (\<lambda>q. q_skill q = Some t) available"

definition preferred_difficulties :: "real \<Rightarrow> string list" where
  "preferred_difficulties mastery =
     (if mastery < 0.3 then [''very_easy'', ''easy'']
      else if mastery < 0.6 then [''easy'', ''medium'']
      else [''medium'', ''hard''])"

definition preferred_questions ::
  "'a question_scheme list \<Rightarrow> real \<Rightarrow> 'a question_scheme list" where
  "preferred_questions matching mastery =
     filter (\<lambda>q. q_difficulty q \<in> set (map Some (preferred_difficulties mastery))) matching"

definition difficulty_or_medium :: "'a question_scheme \<Rightarrow> string" where
  "difficulty_or_medium q = (case q_difficulty q of None \<Rightarrow> ''medium'' | Some d \<Rightarrow> d)"

text \<open>
  The f-strings render the mastery with \<^verbatim>\<open>{mastery:.2f}\<close>. Python's float formatting is
  not part of the repository; it is the parameter \<open>fmt\<close> of the model.
\<close>

definition reason_weak_with :: "(real \<Rightarrow> string) \<Rightarrow> string \<Rightarrow> real \<Rightarrow> string \<Rightarrow> string" where
  "reason_weak_with fmt t mastery d =
     ''Targeting weak skill: '' @ t @ '' (mastery: '' @ fmt mastery @ '') with '' @ d
       @ '' difficulty''"

definition reason_weak :: "(real \<Rightarrow> string) \<Rightarrow> string \<Rightarrow> real \<Rightarrow> string" where
  "reason_weak fmt t mastery =
     ''Targeting weak skill: '' @ t @ '' (mastery: '' @ fmt mastery @ '')''"

definition reason_balancing :: "(real \<Rightarrow> string) \<Rightarrow> string \<Rightarrow> real \<Rightarrow> string" where
  "reason_balancing fmt s mastery =
     ''Balancing skill exposure: '' @ s @ '' (mastery: '' @ fmt mastery @ '')''"

definition reason_random :: string where
  "reason_random = ''Random selection (all skills above threshold or no skill match)''"

text \<open>
  Strategy 1, lines 274--311. The result is \<open>None\<close> when control falls through to line 313.
\<close>

definition strategy1 ::
  "(real \<Rightarrow> string) \<Rightarrow> nat \<Rightarrow> real pydict \<Rightarrow> 'a question_scheme list \<Rightarrow> real
     \<Rightarrow> ('a question_scheme option \<times> string) option" where
  "strategy1 fmt r skill_masteries available threshold =
     (let weak = weak_skills skill_masteries threshold in
      case target_skill weak of
        None \<Rightarrow> None
      | Some t \<Rightarrow>
          (let matching = matching_questions available t in
           if matching \<noteq> [] then
             (let mastery = dict_index weak t;
                  preferred = preferred_questions matching mastery
              in if preferred \<noteq> [] then
                   (let question = random_choice r preferred
                    in Some (Some question,
                             reason_weak_with fmt t mastery (difficulty_or_medium question)))
                 else
                   (let question = random_choice r matching
                    in Some (Some question, reason_weak fmt t mastery)))
           else None))"

text \<open>
  Grouping by skill (lines 315--320, and lines 274--279 of \<^verbatim>\<open>routes/assessment.py\<close>): the
  dict of groups keeps the skills in order of first appearance and each group in pool order.
\<close>

definition skill_key :: "'a question_scheme \<Rightarrow> string" where
  "skill_key q = (case q_skill q of None \<Rightarrow> ''unknown'' | Some s \<Rightarrow> s)"

fun add_to_group :: "string \<Rightarrow> 'q \<Rightarrow> 'q list pydict \<Rightarrow> 'q list pydict" where
  "add_to_group k q [] = [(k, [q])]"
| "add_to_group k q ((k', g) # rest) =
     (if k = k' then (k', g @ [q]) # rest else (k', g) # add_to_group k q rest)"

definition group_by_skill :: "'a question_scheme list \<Rightarrow> 'a question_scheme list pydict" where
  "group_by_skill qs = foldl (\<lambda>groups q. add_to_group (skill_key q) q groups) [] qs"

text \<open>
  Strategy 2, lines 323--335. \<^verbatim>\<open>min(..., default=None)\<close> is \<^verbatim>\<open>None\<close> on an empty list, and
  \<^verbatim>\<open>if least_practiced and ...\<close> is false for \<^verbatim>\<open>None\<close> and for the empty string.
\<close>

definition strategy2 ::
  "(real \<Rightarrow> string) \<Rightarrow> nat \<Rightarrow> real pydict \<Rightarrow> 'a question_scheme list
     \<Rightarrow> ('a question_scheme option \<times> string) option" where
  "strategy2 fmt r skill_masteries available =
     (let skill_groups = group_by_skill available in
      if length skill_groups > 1 then
        if skill_masteries \<noteq> [] then
          (case filter (\<lambda>s. s \<in> set (map fst skill_masteries)) (map fst skill_groups) of
             [] \<Rightarrow> None
           | s # ss \<Rightarrow>
               (let least_practiced = min_by (\<lambda>s. dict_get skill_masteries s 0) s ss in
                if least_practiced \<noteq> [] \<and> least_practiced \<in> set (map fst skill_groups) then
                  (let question = random_choice r (dict_index skill_groups least_practiced);
                       mastery = dict_get skill_masteries least_practiced 0
                   in Some (Some question, reason_balancing fmt least_practiced mastery))
                else None))
        else None
      else None)"

text \<open>
  \<^verbatim>\<open>select_next_question\<close>, lines 232--339. The parameter \<^verbatim>\<open>difficulty_weight\<close> is never
  read and is left out; \<^verbatim>\<open>self\<close> is not read either.
\<close>

definition select_next_question ::
  "(real \<Rightarrow> string) \<Rightarrow> nat \<Rightarrow> real pydict \<Rightarrow> 'a question_scheme list \<Rightarrow> real
     \<Rightarrow> string list option \<Rightarrow> 'a question_scheme option \<times> string" where
  "select_next_question fmt r skill_masteries available_questions threshold exclude_ids =
     (if available_questions = [] then (None, ''No questions available'')
      else
        (let available = filter_excluded exclude_ids available_questions in
         if available = [] then (None, ''No questions available after filtering'')
         else
           (case strategy1 fmt r skill_masteries available threshold of
              Some res \<Rightarrow> res
            | None \<Rightarrow>
                (case strategy2 fmt r skill_masteries available of
                   Some res \<Rightarrow> res
                 | None \<Rightarrow> (Some (random_choice r available), reason_random)))))"

section \<open>Assessment question sets\<close>

text \<open>Source: \<^verbatim>\<open>Backend/backend/src/routes/assessment.py\<close>, lines 261--319.\<close>

definition difficulty_rank :: "'a question_scheme \<Rightarrow> nat" where
  "difficulty_rank q =
     (let d = difficulty_or_medium q in
      if d = ''very_easy'' then 0
      else if d = ''easy'' then 1
      else if d = ''medium'' then 2
      else if d = ''hard'' then 3
      else 2)"

text \<open>The slice \<^verbatim>\<open>xs[::step]\<close> for \<open>step \<ge> 1\<close> (the source takes \<^verbatim>\<open>max(1, ...)\<close>).\<close>

fun every_nth :: "nat \<Rightarrow> 'a list \<Rightarrow> 'a list" where
  "every_nth step [] = []"
| "every_nth step (x # xs) = x # every_nth step (drop (step - 1) xs)"

text \<open>The slice \<^verbatim>\<open>xs[:n]\<close>; a negative \<open>n\<close> counts from the end.\<close>

definition slice_to :: "int \<Rightarrow> 'a list \<Rightarrow> 'a list" where
  "slice_to n xs = (if 0 \<le> n then take (nat n) xs else take (nat (int (length xs) + n)) xs)"

text \<open>
  \<^verbatim>\<open>random.shuffle\<close> of the standard library: for \<open>i\<close> from \<open>len - 1\<close> down to \<open>1\<close>, swap
  position \<open>i\<close> with a drawn position \<open>j \<le> i\<close>. The draw for position \<open>i\<close> is \<open>rnd i\<close>.
\<close>

definition swap :: "nat \<Rightarrow> nat \<Rightarrow> 'a list \<Rightarrow> 'a list" where
  "swap i j xs = xs[i := xs ! j, j := xs ! i]"

fun shuffle_from :: "(nat \<Rightarrow> nat) \<Rightarrow> nat \<Rightarrow> 'a list \<Rightarrow> 'a list" where
  "shuffle_from rnd 0 xs = xs"
| "shuffle_from rnd (Suc i) xs = shuffle_from rnd i (swap (Suc i) (rnd (Suc i) mod (Suc i + 1)) xs)"

definition shuffle :: "(nat \<Rightarrow> nat) \<Rightarrow> 'a list \<Rightarrow> 'a list" where
  "shuffle rnd xs = shuffle_from rnd (length xs - 1) xs"

text \<open>The body of the first loop (lines 286--297) for one skill group, already sorted.\<close>

definition take_from_group :: "int \<Rightarrow> 'q list \<Rightarrow> 'q list" where
  "take_from_group questions_per_skill skill_questions =
     (let step = max 1 (int (length skill_questions) div questions_per_skill)
      in slice_to questions_per_skill (every_nth (nat step) skill_questions))"

text \<open>
  The list \<^verbatim>\<open>selected\<close> before the shuffle (lines 270--316), for a non-empty pool. The
  first loop sorts every group in place, so the second pass reads the sorted groups.
  Python's sort is stable, as \<open>sort_key\<close> is.
\<close>

definition selected_before_shuffle :: "'a question_scheme list \<Rightarrow> int \<Rightarrow> 'a question_scheme list" where
  "selected_before_shuffle questions count0 =
     (let count = min count0 (int (length questions));
          skills = map (\<lambda>(k, g). (k, sort_key difficulty_rank g)) (group_by_skill questions);
          skills_count = int (length skills);
          questions_per_skill = max 1 (count div skills_count);
          selected = concat (map (\<lambda>(k, g). take_from_group questions_per_skill g) skills);
          selected' =
            (if int (length selected) < count then
               (let remaining =
                      sort_key difficulty_rank
                        (filter (\<lambda>q. q \<notin> set selected) (concat (map snd skills)))
                in selected @ slice_to (count - int (length selected)) remaining)
             else selected)
      in slice_to count selected')"

definition select_assessment_questions ::
  "(nat \<Rightarrow> nat) \<Rightarrow> 'a question_scheme list \<Rightarrow> int \<Rightarrow> 'a question_scheme list" where
  "select_assessment_questions rnd questions count0 =
     (if questions = [] then []
      else shuffle rnd (selected_before_shuffle questions count0))"

section \<open>Example inputs\<close>

text \<open>Models built with non-default constructor arguments.\<close>

definition no_guess_model :: BKTModel where
  "no_guess_model = \<lparr>p_init = 0.3, p_learn = 0.2, p_slip = 0.1, p_guess = 0\<rparr>"

definition sure_learn_model :: BKTModel where
  "sure_learn_model = \<lparr>p_init = 0.3, p_learn = 1, p_slip = 0.1, p_guess = 0.25\<rparr>"

text \<open>
  A two-decimal rendering of a real number (rounding half up), used to instantiate the
  formatter in the examples below.
\<close>

definition digit :: "nat \<Rightarrow> char" where
  "digit n = ''0123456789'' ! n"

fun nat_digits :: "nat \<Rightarrow> string" where
  "nat_digits n = (if n < 10 then [digit n] else nat_digits (n div 10) @ [digit (n mod 10)])"

declare nat_digits.simps [simp del]

definition two_decimals :: "real \<Rightarrow> string" where
  "two_decimals x =
     (let c = nat \<lfloor>\<bar>x\<bar> * 100 + 1/2\<rfloor>
      in (if x < 0 then ''-'' else []) @ nat_digits (c div 100) @ ''.''
           @ [digit (c div 10 mod 10), digit (c mod 10)])"

text \<open>Sample questions.\<close>

definition algebra_easy :: question where
  "algebra_easy = \<lparr>q_id = Some ''a1'', q_skill = Some ''algebra'', q_difficulty = Some ''easy''\<rparr>"

definition algebra_hard :: question where
  "algebra_hard = \<lparr>q_id = Some ''a2'', q_skill = Some ''algebra'', q_difficulty = Some ''hard''\<rparr>"

definition geometry_easy :: question where
  "geometry_easy = \<lparr>q_id = Some ''g1'', q_skill = Some ''geometry'', q_difficulty = Some ''easy''\<rparr>"


text \<open>The preferred difficulty band as the specification words it.\<close>

definition preferred_band :: "real \<Rightarrow> string set" where
  "preferred_band m =
     (if m < 0.3 then {''very_easy'', ''easy''}
      else if m < 0.6 then {''easy'', ''medium''}
      else {''medium'', ''hard''})"


text \<open>
  A pool of \<open>n\<close> pairwise distinct questions, alternating between two skills.
\<close>

definition sample_question :: "nat \<Rightarrow> question" where
  "sample_question i =
     \<lparr>q_id = Some (''q'' @ nat_digits i),
      q_skill = Some (if even i then ''algebra'' else ''geometry''),
      q_difficulty =
        Some (if i mod 3 = 0 then ''easy'' else if i mod 3 = 1 then ''medium'' else ''hard'')\<rparr>"

definition sample_pool :: "nat \<Rightarrow> question list" where
  "sample_pool n = map sample_question [0..<n]"

text \<open>
  The invariant of the grouping loop: no group is empty and every question sits in the
  group of its own key.
\<close>

definition groups_ok :: "('q \<Rightarrow> string) \<Rightarrow> 'q list pydict \<Rightarrow> bool" where
  "groups_ok key g = list_all (\<lambda>kg. snd kg \<noteq> [] \<and> list_all (\<lambda>q. key q = fst kg) (snd kg)) g"

section \<open>Properties of the mastery update\<close>

lemmas bkt_defs = update_mastery_def p_known_given_response_def bayes_denominator_def
  bayes_numerator_def adjusted_slip_def adjusted_learn_def truthy_def Let_def

lemma adjusted_slip_spec: "adjusted_slip m (difficulty_arg lvl) = spec_slip (p_slip m) lvl"
  by (cases lvl) (simp_all add: adjusted_slip_def truthy_def)

lemma adjusted_learn_spec: "adjusted_learn m (difficulty_arg lvl) = spec_learn (p_learn m) lvl"
  by (cases lvl) (simp_all add: adjusted_learn_def truthy_def)

lemma clamp_min_max: "min (max x 0) 1 = clamp x 0 1"
  by (simp add: clamp_def min_def max_def)

text \<open>
  C1. For a mastery in \<open>[0,1]\<close>, either answer and each of the five difficulty arguments,
  the source's adjusted slip and learning parameters are the specified ones (the guess
  parameter is the base one), its denominator is the specified one, and whenever that
  denominator is positive the result is the specified posterior followed by the learning
  transition, clamped to \<open>[0,1]\<close>.
\<close>

theorem update_mastery_two_stage:
  assumes "0 \<le> p" and "p \<le> 1"
  shows "adjusted_slip m (difficulty_arg lvl) = spec_slip (p_slip m) lvl
       \<and> adjusted_learn m (difficulty_arg lvl) = spec_learn (p_learn m) lvl
       \<and> bayes_denominator m p c (difficulty_arg lvl)
           = spec_denominator (spec_slip (p_slip m) lvl) (p_guess m) p c
       \<and> (0 < spec_denominator (spec_slip (p_slip m) lvl) (p_guess m) p c \<longrightarrow>
            update_mastery m p c (difficulty_arg lvl) = spec_update m p c lvl)"
  by (simp add: adjusted_slip_spec adjusted_learn_spec bayes_denominator_def
      spec_denominator_def update_mastery_def spec_update_def p_known_given_response_def
      bayes_numerator_def spec_posterior_def clamp_min_max Let_def)

theorem update_mastery_two_stage_witness:
  "(0::real) \<le> 1/2 \<and> (1/2::real) \<le> 1
   \<and> 0 < spec_denominator (spec_slip (p_slip default_model) Hard) (p_guess default_model) (1/2) True
   \<and> update_mastery default_model (1/2) True (Some ''hard'') = spec_update default_model (1/2) True Hard"
  using update_mastery_two_stage [of "1/2" default_model Hard True]
  by (simp add: spec_denominator_def default_model_def)

text \<open>
  C2. Range invariant: for a mastery in \<open>[0,1]\<close>, either answer and any difficulty argument
  (also an absent or unknown one), the updated mastery lies in \<open>[0,1]\<close>.
\<close>

theorem update_mastery_range:
  "0 \<le> p \<Longrightarrow> p \<le> 1 \<Longrightarrow> 0 \<le> update_mastery m p c d \<and> update_mastery m p c d \<le> 1"
  by (simp add: update_mastery_def Let_def)

theorem update_mastery_range_witness:
  "(0::real) \<le> 1/2 \<and> (1/2::real) \<le> 1
   \<and> 0 \<le> update_mastery default_model (1/2) False (Some ''easy'')
   \<and> update_mastery default_model (1/2) False (Some ''easy'') \<le> 1"
  using update_mastery_range [of "1/2" default_model False "Some ''easy''"]
  by simp

text \<open>
  C3, as claimed: with a zero denominator the call returns the input mastery. It does not:
  for a model with \<open>p_guess = 0\<close>, mastery \<open>0\<close> and a correct answer the denominator is
  zero and the result is \<open>p_learn = 0.2\<close>.
\<close>

theorem zero_denominator_not_noop:
  "bayes_denominator no_guess_model 0 True None = 0
   \<and> update_mastery no_guess_model 0 True None = 1/5
   \<and> update_mastery no_guess_model 0 True None \<noteq> 0"
  by (simp add: bkt_defs no_guess_model_def)

text \<open>
  C3, amended: with a zero denominator the posterior falls back to the input mastery, and
  the call returns the learning transition of the input mastery, clamped to \<open>[0,1]\<close>.
\<close>

theorem zero_denominator_fallback:
  "bayes_denominator m p c d = 0 \<Longrightarrow>
     p_known_given_response m p c d = p
     \<and> update_mastery m p c d = min (max (p + (1 - p) * adjusted_learn m d) 0) 1"
  by (simp add: update_mastery_def p_known_given_response_def Let_def)

theorem zero_denominator_fallback_witness:
  "bayes_denominator no_guess_model 0 True None = 0
   \<and> p_known_given_response no_guess_model 0 True None = 0
   \<and> update_mastery no_guess_model 0 True None
       = min (max (0 + (1 - 0) * adjusted_learn no_guess_model None) 0) 1"
  using zero_denominator_fallback [of no_guess_model 0 True None]
  by (simp add: bayes_denominator_def no_guess_model_def adjusted_slip_def truthy_def)

subsection \<open>Evidence ordering\<close>

lemma posterior_correct_above:
  fixes p s g :: real
  assumes "0 < p" "p < 1" "s + g < 1" "0 < p * (1 - s) + (1 - p) * g"
  shows "p < p * (1 - s) / (p * (1 - s) + (1 - p) * g)"
proof -
  have "(1 - p) * g < (1 - p) * (1 - s)" using assms by simp
  then have "p * (1 - s) + (1 - p) * g < 1 - s" by (simp add: algebra_simps)
  then have "p * (p * (1 - s) + (1 - p) * g) < p * (1 - s)"
    using assms(1) by (simp add: mult_strict_left_mono)
  then show ?thesis using assms(4) by (simp add: pos_less_divide_eq)
qed

lemma posterior_incorrect_below:
  fixes p s g :: real
  assumes "0 < p" "p < 1" "s + g < 1" "0 < p * s + (1 - p) * (1 - g)"
  shows "p * s / (p * s + (1 - p) * (1 - g)) < p"
proof -
  have "(1 - p) * s < (1 - p) * (1 - g)" using assms by simp
  then have "s < p * s + (1 - p) * (1 - g)" by (simp add: algebra_simps)
  then have "p * s < p * (p * s + (1 - p) * (1 - g))"
    using assms(1) by (simp add: mult_strict_left_mono)
  then show ?thesis using assms(4) by (simp add: pos_divide_less_eq)
qed

lemma denominators_sum: "bayes_denominator m p True d + bayes_denominator m p False d = 1"
  by (simp add: bayes_denominator_def algebra_simps)

lemma known_correct_ge:
  assumes "0 < p" "p < 1" "adjusted_slip m d + p_guess m < 1"
  shows "p \<le> p_known_given_response m p True d"
    and "0 < bayes_denominator m p True d \<Longrightarrow> p < p_known_given_response m p True d"
  using posterior_correct_above[OF assms, simplified less_eq_real_def]
    posterior_correct_above[OF assms]
  by (auto simp add: p_known_given_response_def bayes_denominator_def bayes_numerator_def)

lemma known_incorrect_le:
  assumes "0 < p" "p < 1" "adjusted_slip m d + p_guess m < 1"
  shows "p_known_given_response m p False d \<le> p"
    and "0 < bayes_denominator m p False d \<Longrightarrow> p_known_given_response m p False d < p"
  using posterior_incorrect_below[OF assms]
  by (auto simp add: p_known_given_response_def bayes_denominator_def bayes_numerator_def)

lemma learn_step_mono:
  fixes x y l :: real
  assumes "x < y" "x < 1" "0 < y" "0 \<le> l" "l < 1"
  shows "min (max (x + (1 - x) * l) 0) 1 < min (max (y + (1 - y) * l) 0) 1"
proof -
  have e: "\<And>z. z + (1 - z) * l = z * (1 - l) + l" by (simp add: algebra_simps)
  have lt: "x * (1 - l) < y * (1 - l)" using assms by simp
  have "x * (1 - l) < 1 * (1 - l)" using assms by (intro mult_strict_right_mono) simp_all
  then have x1: "x * (1 - l) + l < 1" by simp
  have "0 < y * (1 - l)" using assms by simp
  then have y0: "0 < y * (1 - l) + l" using assms by linarith
  show ?thesis unfolding e using lt x1 y0 by (simp add: min_def max_def)
qed

text \<open>
  C4, as claimed: for every mastery in \<open>[0,1]\<close> a correct answer gives a strictly larger
  result than an incorrect one when \<open>p_slip + p_guess < 1\<close>. With the default parameters
  the two results are equal at mastery \<open>0\<close> and at mastery \<open>1\<close>; with \<open>p_learn = 1\<close> they are
  equal at every mastery.
\<close>

theorem evidence_ordering_not_strict:
  "adjusted_slip default_model None + p_guess default_model < 1
   \<and> \<not> update_mastery default_model 0 False None < update_mastery default_model 0 True None
   \<and> \<not> update_mastery default_model 1 False None < update_mastery default_model 1 True None
   \<and> adjusted_slip sure_learn_model None + p_guess sure_learn_model < 1
   \<and> \<not> update_mastery sure_learn_model (1/2) False None
         < update_mastery sure_learn_model (1/2) True None"
  by (simp add: bkt_defs default_model_def sure_learn_model_def)

text \<open>
  C4, amended: in exact arithmetic (the update rule evaluated over the real numbers, as
  this model does), for every mastery strictly between \<open>0\<close> and \<open>1\<close> and every difficulty
  argument, a correct answer gives a strictly larger result than an incorrect one when the
  adjusted parameters satisfy \<open>p_slip + p_guess < 1\<close> and \<open>0 \<le> p_learn < 1\<close>. The
  statement is about the formulas, not about their binary floating-point evaluation: in
  binary64 the learning step \<open>k + (1 - k) * p_learn\<close> can round both posteriors to the same
  result for a mastery very close to \<open>0\<close> (for example \<open>1e-18\<close> with the default
  parameters), so the strict ordering is not claimed of the rounded results.
\<close>

theorem evidence_ordering:
  assumes "0 < p" "p < 1"
      and "adjusted_slip m d + p_guess m < 1"
      and "0 \<le> adjusted_learn m d" "adjusted_learn m d < 1"
    shows "update_mastery m p False d < update_mastery m p True d"
proof -
  note c = known_correct_ge[OF assms(1-3)]
  note i = known_incorrect_le[OF assms(1-3)]
  have "0 < bayes_denominator m p True d \<or> 0 < bayes_denominator m p False d"
    using denominators_sum[of m p d] by linarith
  then have "p_known_given_response m p False d < p_known_given_response m p True d"
    using c i by fastforce
  moreover have "p_known_given_response m p False d < 1" using i(1) assms(2) by linarith
  moreover have "0 < p_known_given_response m p True d" using c(1) assms(1) by linarith
  ultimately show ?thesis
    unfolding update_mastery_def Let_def using assms(4,5) by (intro learn_step_mono)
qed

theorem evidence_ordering_witness:
  "(0::real) < 1/2 \<and> (1/2::real) < 1
   \<and> adjusted_slip default_model (Some ''hard'') + p_guess default_model < 1
   \<and> 0 \<le> adjusted_learn default_model (Some ''hard'')
   \<and> adjusted_learn default_model (Some ''hard'') < 1
   \<and> update_mastery default_model (1/2) False (Some ''hard'')
       < update_mastery default_model (1/2) True (Some ''hard'')"
  using evidence_ordering [of "1/2" default_model "Some ''hard''"]
  by (simp add: adjusted_slip_def adjusted_learn_def truthy_def default_model_def)

subsection \<open>Full mastery\<close>

lemma known_at_one: "p_known_given_response m 1 c d = 1"
  by (simp add: p_known_given_response_def bayes_denominator_def bayes_numerator_def)

text \<open>
  C10. With base parameters \<open>0 < p_slip < 1\<close> and \<open>p_guess < 1\<close>, a mastery of \<open>1\<close> stays \<open>1\<close>
  after any answer at any difficulty.
\<close>

theorem full_mastery_absorbing:
  "0 < p_slip m \<Longrightarrow> p_slip m < 1 \<Longrightarrow> p_guess m < 1 \<Longrightarrow> update_mastery m 1 c d = 1"
  by (simp add: update_mastery_def known_at_one)

theorem full_mastery_absorbing_witness:
  "0 < p_slip default_model \<and> p_slip default_model < 1 \<and> p_guess default_model < 1
   \<and> update_mastery default_model 1 False (Some ''hard'') = 1"
  using full_mastery_absorbing [of default_model False "Some ''hard''"]
  by (simp add: default_model_def)

section \<open>Properties of question selection\<close>

lemmas sel_defs = select_next_question_def filter_excluded_def strategy1_def strategy2_def
  weak_skills_def target_skill_def matching_questions_def preferred_questions_def preferred_difficulties_def
  dict_index_def dict_get_def random_choice_def group_by_skill_def skill_key_def difficulty_or_medium_def
  reason_weak_with_def reason_weak_def reason_balancing_def reason_random_def Let_def


lemma random_choice_in: "xs \<noteq> [] \<Longrightarrow> random_choice r xs \<in> set xs"
  by (simp add: random_choice_def)

lemma min_by_in: "min_by key b xs \<in> set (b # xs)"
  by (induction xs arbitrary: b) auto

lemma min_by_le: "x \<in> set (b # xs) \<Longrightarrow> key (min_by key b xs) \<le> key x"
proof (induction xs arbitrary: b x)
  case Nil
  then show ?case by simp
next
  case (Cons y ys)
  have step: "key (min_by key (if key y < key b then y else b) ys) \<le> key (if key y < key b then y else b)"
    using Cons.IH[of "if key y < key b then y else b" "if key y < key b then y else b"] by simp
  from Cons.prems consider "x = b" | "x = y" | "x \<in> set ys" by auto
  then show ?case
  proof cases
    case 1 then show ?thesis using step by (simp split: if_splits)
  next
    case 2 then show ?thesis using step by (simp split: if_splits)
  next
    case 3 then show ?thesis using Cons.IH[of x "if key y < key b then y else b"] by simp
  qed
qed

lemma target_skill_None: "(target_skill weak = None) = (weak = [])"
  by (cases weak) (simp_all add: target_skill_def)

lemma target_skill_in: "target_skill weak = Some t \<Longrightarrow> t \<in> fst ` set weak"
proof -
  assume a: "target_skill weak = Some t"
  then obtain k ks where ks: "map fst weak = k # ks" and t: "t = min_by (dict_index weak) k ks"
    by (auto simp add: target_skill_def split: list.splits)
  have "t \<in> set (k # ks)" unfolding t by (rule min_by_in)
  then show ?thesis unfolding ks[symmetric] by simp
qed

lemma target_skill_least:
  assumes "target_skill weak = Some t" "(s, v) \<in> set weak" "distinct (map fst weak)"
  shows "dict_index weak t \<le> v"
proof -
  from assms(1) obtain k ks where ks: "map fst weak = k # ks" and t: "t = min_by (dict_index weak) k ks"
    by (auto simp add: target_skill_def split: list.splits)
  have "s \<in> set (k # ks)" unfolding ks[symmetric] using assms(2) by force
  then have "dict_index weak t \<le> dict_index weak s" unfolding t by (rule min_by_le)
  moreover have "dict_index weak s = v" using assms(2,3) by (simp add: dict_index_def)
  ultimately show ?thesis by simp
qed

lemma dict_index_weak:
  assumes "t \<in> fst ` set (weak_skills sm th)"
  shows "(t, dict_index (weak_skills sm th) t) \<in> set sm \<and> dict_index (weak_skills sm th) t < th"
proof -
  from assms obtain v where "map_of (weak_skills sm th) t = Some v"
    by (metis map_of_eq_None_iff not_Some_eq)
  then have "(t, v) \<in> set (weak_skills sm th)" "dict_index (weak_skills sm th) t = v"
    by (simp_all add: map_of_SomeD dict_index_def)
  then show ?thesis by (auto simp add: weak_skills_def)
qed

lemma min_by_first:
  "\<exists>pre post. b # xs = pre @ min_by key b xs # post
      \<and> (\<forall>x\<in>set pre. key (min_by key b xs) < key x)"
proof (induction xs arbitrary: b)
  case Nil
  have "[b] = [] @ b # [] \<and> (\<forall>x\<in>set []. key b < key x)" by simp
  then have "\<exists>pre post. [b] = pre @ b # post \<and> (\<forall>x\<in>set pre. key b < key x)"
    by (intro exI)
  then show ?case by simp
next
  case (Cons y ys)
  define b' where "b' = (if key y < key b then y else b)"
  define m where "m = min_by key b' ys"
  have mm: "min_by key b (y # ys) = m" by (simp add: m_def b'_def)
  from Cons.IH[of b'] obtain pre post where
    d: "b' # ys = pre @ m # post" and s: "\<forall>x\<in>set pre. key m < key x"
    unfolding m_def by blast
  have le: "key m \<le> key b'" unfolding m_def by (rule min_by_le) simp
  have "\<exists>pre post. b # y # ys = pre @ m # post \<and> (\<forall>x\<in>set pre. key m < key x)"
  proof (cases "key y < key b")
    case True
    then have by': "b' = y" by (simp add: b'_def)
    have "b # y # ys = (b # pre) @ m # post" using d by' by simp
    moreover have "\<forall>x\<in>set (b # pre). key m < key x" using s le True by' by auto
    ultimately show ?thesis by (intro exI conjI)
  next
    case False
    then have bb: "b' = b" by (simp add: b'_def)
    show ?thesis
    proof (cases pre)
      case Nil
      then have "b # ys = m # post" using d bb by simp
      then have "m = b" "ys = post" by simp_all
      then have "b # y # ys = [] @ m # (y # post)" by simp
      moreover have "\<forall>x\<in>set []. key m < key x" by simp
      ultimately show ?thesis by (intro exI conjI)
    next
      case (Cons p pre')
      then have "b # ys = p # pre' @ m # post" using d bb by simp
      then have pb: "p = b" and ys: "ys = pre' @ m # post" by simp_all
      have "key m < key b" using s Cons pb by simp
      moreover have "key b \<le> key y" using False by simp
      ultimately have "\<forall>x\<in>set (b # y # pre'). key m < key x" using s Cons by auto
      moreover have "b # y # ys = (b # y # pre') @ m # post" using ys by simp
      ultimately show ?thesis by (intro exI conjI)
    qed
  qed
  then show ?case unfolding mm .
qed

lemma filter_split:
  "filter P xs = pre @ x # post \<Longrightarrow>
     \<exists>pre' post'. xs = pre' @ x # post' \<and> filter P pre' = pre"
proof (induction xs arbitrary: pre)
  case Nil
  then show ?case by simp
next
  case (Cons y ys)
  show ?case
  proof (cases "P y")
    case False
    then have "filter P ys = pre @ x # post" using Cons.prems by simp
    from Cons.IH[OF this] obtain p q where "ys = p @ x # q" "filter P p = pre" by blast
    then have "y # ys = (y # p) @ x # q \<and> filter P (y # p) = pre" using False by simp
    then show ?thesis by (intro exI)
  next
    case True
    then have e: "y # filter P ys = pre @ x # post" using Cons.prems by simp
    show ?thesis
    proof (cases pre)
      case Nil
      then have "y = x" using e by simp
      then have "y # ys = [] @ x # ys \<and> filter P [] = pre" using Nil by simp
      then show ?thesis by (intro exI)
    next
      case (Cons p pre2)
      then have py: "p = y" and f: "filter P ys = pre2 @ x # post" using e by simp_all
      from Cons.IH[OF f] obtain p' q where "ys = p' @ x # q" "filter P p' = pre2" by blast
      then have "y # ys = (y # p') @ x # q \<and> filter P (y # p') = pre" using True Cons py by simp
      then show ?thesis by (intro exI)
    qed
  qed
qed

lemma map_fst_split:
  "map fst xs = kpre @ t # kpost \<Longrightarrow>
     \<exists>pre v post. xs = pre @ (t, v) # post \<and> map fst pre = kpre"
proof (induction xs arbitrary: kpre)
  case Nil
  then show ?case by simp
next
  case (Cons y ys)
  show ?case
  proof (cases kpre)
    case Nil
    then have "fst y = t" using Cons.prems by simp
    then have "y # ys = [] @ (t, snd y) # ys \<and> map fst [] = kpre" using Nil by auto
    then show ?thesis by (intro exI)
  next
    case (Cons k kpre2)
    then have ky: "k = fst y" and f: "map fst ys = kpre2 @ t # kpost" using Cons.prems by simp_all
    from Cons.IH[OF f] obtain p v q where "ys = p @ (t, v) # q" "map fst p = kpre2" by blast
    then have "y # ys = (y # p) @ (t, v) # q \<and> map fst (y # p) = kpre" using Cons ky by simp
    then show ?thesis by (intro exI)
  qed
qed

lemma target_skill_first:
  assumes "target_skill (weak_skills sm th) = Some t" "distinct (map fst sm)"
  shows "\<exists>pre post. sm = pre @ (t, dict_index (weak_skills sm th) t) # post
           \<and> (\<forall>(s, v)\<in>set pre. v < th \<longrightarrow> dict_index (weak_skills sm th) t < v)"
proof -
  define weak where "weak = weak_skills sm th"
  define m where "m = dict_index weak t"
  have dw: "distinct (map fst weak)"
    using assms(2) by (simp add: weak_def weak_skills_def distinct_map_filter)
  have val: "dict_index weak s = v" if "(s, v) \<in> set weak" for s v
    using that dw by (simp add: dict_index_def)
  from assms(1) obtain k ks where ks: "map fst weak = k # ks"
    and t: "t = min_by (dict_index weak) k ks"
    unfolding weak_def[symmetric] by (auto simp add: target_skill_def split: list.splits)
  from min_by_first[of k ks "dict_index weak"] obtain kpre kpost where
    kd: "map fst weak = kpre @ t # kpost"
    and kl: "\<forall>s\<in>set kpre. dict_index weak t < dict_index weak s"
    unfolding ks t by blast
  from map_fst_split[OF kd] obtain wpre v wpost where
    wd0: "weak = wpre @ (t, v) # wpost" and wk: "map fst wpre = kpre" by blast
  have "(t, v) \<in> set weak" unfolding wd0 by simp
  then have "v = m" unfolding m_def using val by simp
  then have wd: "weak = wpre @ (t, m) # wpost" using wd0 by simp
  have wl: "m < v'" if "(s, v') \<in> set wpre" for s v'
  proof -
    have "fst (s, v') \<in> fst ` set wpre" using that by (rule imageI)
    then have "s \<in> set kpre" unfolding wk[symmetric] by simp
    then have "m < dict_index weak s" unfolding m_def using kl by blast
    moreover have "(s, v') \<in> set weak" using that unfolding wd by simp
    ultimately show ?thesis using val by simp
  qed
  from wd have "filter (\<lambda>(skill, mastery). mastery < th) sm = wpre @ (t, m) # wpost"
    by (simp add: weak_def weak_skills_def)
  from filter_split[OF this] obtain pre post where
    sd: "sm = pre @ (t, m) # post" and fp: "filter (\<lambda>(skill, mastery). mastery < th) pre = wpre"
    by blast
  have "\<forall>(s, v)\<in>set pre. v < th \<longrightarrow> m < v"
  proof (clarify)
    fix s v assume "(s, v) \<in> set pre" "v < th"
    then have "(s, v) \<in> set wpre" unfolding fp[symmetric] by simp
    then show "m < v" by (rule wl)
  qed
  then have "sm = pre @ (t, m) # post \<and> (\<forall>(s, v)\<in>set pre. v < th \<longrightarrow> m < v)"
    using sd by simp
  then show ?thesis unfolding m_def weak_def by (intro exI)
qed

lemma strategy1_None:
  "(strategy1 fmt r sm available th = None) =
     (weak_skills sm th = [] \<or>
      (\<exists>t. target_skill (weak_skills sm th) = Some t \<and> matching_questions available t = []))"
  by (auto simp add: strategy1_def Let_def target_skill_None[symmetric] split: option.splits)

lemma strategy1_Some:
  assumes "target_skill (weak_skills sm th) = Some t" "matching_questions available t \<noteq> []"
  shows "\<exists>q. q \<in> set available \<and> q_skill q = Some t \<and>
          (strategy1 fmt r sm available th
             = Some (Some q, reason_weak_with fmt t (dict_index (weak_skills sm th) t) (difficulty_or_medium q))
           \<or> strategy1 fmt r sm available th
             = Some (Some q, reason_weak fmt t (dict_index (weak_skills sm th) t)))"
proof (cases "preferred_questions (matching_questions available t) (dict_index (weak_skills sm th) t) = []")
  case True
  have "random_choice r (matching_questions available t) \<in> set (matching_questions available t)"
    using assms(2) by (rule random_choice_in)
  then show ?thesis using assms True
    by (auto simp add: strategy1_def Let_def matching_questions_def)
next
  case False
  then have "random_choice r (preferred_questions (matching_questions available t) (dict_index (weak_skills sm th) t))
     \<in> set (preferred_questions (matching_questions available t) (dict_index (weak_skills sm th) t))"
    by (rule random_choice_in)
  then show ?thesis using assms False
    by (auto simp add: strategy1_def Let_def matching_questions_def preferred_questions_def)
qed

lemma strategy2_reason:
  "strategy2 fmt r sm available = Some (q, reason) \<Longrightarrow>
     \<exists>s v. reason = reason_balancing fmt s v"
  by (auto simp add: strategy2_def Let_def split: if_splits list.splits)

lemma pool_nonempty: "filter_excluded ex pool \<noteq> [] \<Longrightarrow> pool \<noteq> []"
  by (auto simp add: filter_excluded_def split: option.splits if_splits)

lemma select_falls_through:
  assumes "filter_excluded ex pool \<noteq> []" "strategy1 fmt r sm (filter_excluded ex pool) th = None"
  shows "snd (select_next_question fmt r sm pool th ex) = reason_random
          \<or> (\<exists>s v. snd (select_next_question fmt r sm pool th ex) = reason_balancing fmt s v)"
proof (cases "strategy2 fmt r sm (filter_excluded ex pool)")
  case None
  then show ?thesis using assms pool_nonempty[OF assms(1)]
    by (simp add: select_next_question_def Let_def)
next
  case (Some res)
  obtain q reason where res: "res = (q, reason)" by (cases res)
  from strategy2_reason[OF Some[unfolded res]] obtain s v where "reason = reason_balancing fmt s v"
    by blast
  then show ?thesis using assms pool_nonempty[OF assms(1)] Some res
    by (auto simp add: select_next_question_def Let_def)
qed

lemma select_strategy1:
  assumes "filter_excluded ex pool \<noteq> []" "strategy1 fmt r sm (filter_excluded ex pool) th = Some res"
  shows "select_next_question fmt r sm pool th ex = res"
  using assms pool_nonempty[OF assms(1)] by (simp add: select_next_question_def Let_def)

lemma filter_excluded_subset: "set (filter_excluded ex pool) \<subseteq> set pool"
  by (auto simp add: filter_excluded_def split: option.splits)



lemma preferred_band_eq: "set (preferred_difficulties m) = preferred_band m"
  by (auto simp add: preferred_difficulties_def preferred_band_def)


lemma strategy1_preferred:
  assumes "target_skill (weak_skills sm th) = Some t"
      and "preferred_questions (matching_questions available t) (dict_index (weak_skills sm th) t) \<noteq> []"
  shows "\<exists>q d. strategy1 fmt r sm available th
                = Some (Some q, reason_weak_with fmt t (dict_index (weak_skills sm th) t) d)
          \<and> q \<in> set available \<and> q_skill q = Some t \<and> q_difficulty q = Some d
          \<and> d \<in> set (preferred_difficulties (dict_index (weak_skills sm th) t))"
proof -
  let ?m = "dict_index (weak_skills sm th) t"
  let ?pref = "preferred_questions (matching_questions available t) ?m"
  let ?q = "random_choice r ?pref"
  have "?q \<in> set ?pref" using assms(2) by (rule random_choice_in)
  then have q: "?q \<in> set available" "q_skill ?q = Some t"
    and "q_difficulty ?q \<in> Some ` set (preferred_difficulties ?m)"
    by (simp_all add: preferred_questions_def matching_questions_def)
  then obtain d where d: "q_difficulty ?q = Some d" "d \<in> set (preferred_difficulties ?m)" by auto
  have ne: "matching_questions available t \<noteq> []"
    using assms(2) by (auto simp add: preferred_questions_def)
  have "strategy1 fmt r sm available th = Some (Some ?q, reason_weak_with fmt t ?m d)"
    using assms ne d(1) by (simp add: strategy1_def Let_def difficulty_or_medium_def)
  then show ?thesis using q d by blast
qed


text \<open>
  C7. An empty pool gives \<open>(None, ''No questions available'')\<close>; a non-empty pool whose
  every question id is excluded gives \<open>(None, ''No questions available after filtering'')\<close>;
  the two reasons differ. The result is a value in both cases.
\<close>

theorem empty_pool_reasons:
  fixes pool :: "'a question_scheme list"
  shows "select_next_question fmt r sm ([] :: 'a question_scheme list) th ex
       = (None, ''No questions available'')
   \<and> (pool \<noteq> [] \<and> (\<forall>q\<in>set pool. \<exists>i\<in>set ids. q_id q = Some i) \<longrightarrow>
        select_next_question fmt r sm pool th (Some ids)
          = (None, ''No questions available after filtering''))
   \<and> ''No questions available'' \<noteq> ''No questions available after filtering''"
proof -
  have "filter_excluded (Some ids) pool = []"
    if "pool \<noteq> []" "\<forall>q\<in>set pool. \<exists>i\<in>set ids. q_id q = Some i"
    using that by (cases ids) (auto simp add: filter_excluded_def filter_empty_conv neq_Nil_conv)
  then show ?thesis by (simp add: select_next_question_def Let_def)
qed


theorem empty_pool_reasons_witness:
  "[algebra_easy, algebra_hard] \<noteq> []
   \<and> q_id algebra_easy = Some ''a1'' \<and> ''a1'' \<in> set [''a1'', ''a2'', ''zz'']
   \<and> q_id algebra_hard = Some ''a2'' \<and> ''a2'' \<in> set [''a1'', ''a2'', ''zz'']
   \<and> select_next_question two_decimals 0 [(''algebra'', 0.2)] [algebra_easy, algebra_hard] 0.8
        (Some [''a1'', ''a2'', ''zz'']) = (None, ''No questions available after filtering'')"
  using empty_pool_reasons [of two_decimals 0 "[(''algebra'', 0.2)]" "0.8" None "[algebra_easy, algebra_hard]" "[''a1'', ''a2'', ''zz'']"]
  by (simp add: algebra_easy_def algebra_hard_def)




text \<open>
  C5, as claimed: whenever any weak skill has a question in the pool, strategy 1 produces
  the result. It does not: with masteries algebra 0.2 and geometry 0.5 (both below the
  threshold 0.8) and a pool holding one geometry question, strategy 1 targets algebra,
  finds no question and falls through; the result is the random fallback.
\<close>

theorem weakest_skill_only_targeted:
  "(''geometry'', 0.5) \<in> set [(''algebra'', 0.2), (''geometry'', 0.5)] \<and> (0.5::real) < 0.8
   \<and> geometry_easy \<in> set (filter_excluded None [geometry_easy])
   \<and> q_skill geometry_easy = Some ''geometry''
   \<and> strategy1 two_decimals 0 [(''algebra'', 0.2), (''geometry'', 0.5)] (filter_excluded None [geometry_easy]) 0.8 = None
   \<and> select_next_question two_decimals 0 [(''algebra'', 0.2), (''geometry'', 0.5)] [geometry_easy] 0.8 None
       = (Some geometry_easy, ''Random selection (all skills above threshold or no skill match)'')"
  by (simp add: sel_defs geometry_easy_def)

text \<open>
  C5, amended: on a non-empty filtered pool, strategies 2 and 3 are reached exactly when
  no skill is below the threshold or the target skill has no question in the filtered
  pool, and the reason is then one of theirs; whenever the target skill has a question in
  the filtered pool, strategy 1 produces the result: a question tagged with the target and
  one of the two "Targeting weak skill" reasons. For a mastery dict (distinct keys) the
  target is the first skill of least mastery among those below the threshold: it is below
  the threshold, no skill below the threshold has less mastery, and every skill below the
  threshold that comes before it in the dict has strictly more.
\<close>

theorem fallback_reachability:
  assumes "filter_excluded ex pool \<noteq> []"
  shows "(strategy1 fmt r sm (filter_excluded ex pool) th = None)
           = (weak_skills sm th = [] \<or>
              (\<exists>t. target_skill (weak_skills sm th) = Some t
                   \<and> (\<forall>q\<in>set (filter_excluded ex pool). q_skill q \<noteq> Some t)))
       \<and> (strategy1 fmt r sm (filter_excluded ex pool) th = None \<longrightarrow>
            snd (select_next_question fmt r sm pool th ex) = reason_random
            \<or> (\<exists>s v. snd (select_next_question fmt r sm pool th ex) = reason_balancing fmt s v))
       \<and> (\<forall>t. target_skill (weak_skills sm th) = Some t
               \<and> (\<exists>q\<in>set (filter_excluded ex pool). q_skill q = Some t) \<longrightarrow>
             (\<exists>q\<in>set (filter_excluded ex pool). q_skill q = Some t
                \<and> fst (select_next_question fmt r sm pool th ex) = Some q
                \<and> (snd (select_next_question fmt r sm pool th ex)
                      = reason_weak_with fmt t (dict_index (weak_skills sm th) t) (difficulty_or_medium q)
                    \<or> snd (select_next_question fmt r sm pool th ex)
                      = reason_weak fmt t (dict_index (weak_skills sm th) t))))
       \<and> (\<forall>t. target_skill (weak_skills sm th) = Some t \<and> distinct (map fst sm) \<longrightarrow>
             (t, dict_index (weak_skills sm th) t) \<in> set sm
             \<and> dict_index (weak_skills sm th) t < th
             \<and> (\<forall>(s, v)\<in>set sm. v < th \<longrightarrow> dict_index (weak_skills sm th) t \<le> v)
             \<and> (\<exists>pre post. sm = pre @ (t, dict_index (weak_skills sm th) t) # post
                    \<and> (\<forall>(s, v)\<in>set pre. v < th \<longrightarrow> dict_index (weak_skills sm th) t < v)))"
proof (intro conjI allI impI)
  show "(strategy1 fmt r sm (filter_excluded ex pool) th = None)
           = (weak_skills sm th = [] \<or>
              (\<exists>t. target_skill (weak_skills sm th) = Some t
                   \<and> (\<forall>q\<in>set (filter_excluded ex pool). q_skill q \<noteq> Some t)))"
    by (simp add: strategy1_None matching_questions_def filter_empty_conv)
next
  assume "strategy1 fmt r sm (filter_excluded ex pool) th = None"
  then show "snd (select_next_question fmt r sm pool th ex) = reason_random
            \<or> (\<exists>s v. snd (select_next_question fmt r sm pool th ex) = reason_balancing fmt s v)"
    using assms by (intro select_falls_through)
next
  fix t
  assume a: "target_skill (weak_skills sm th) = Some t
               \<and> (\<exists>q\<in>set (filter_excluded ex pool). q_skill q = Some t)"
  then have m: "matching_questions (filter_excluded ex pool) t \<noteq> []"
    by (auto simp add: matching_questions_def filter_empty_conv)
  from strategy1_Some[OF conjunct1[OF a] m, of fmt r] obtain q where
    q: "q \<in> set (filter_excluded ex pool)" "q_skill q = Some t"
    and s: "strategy1 fmt r sm (filter_excluded ex pool) th
             = Some (Some q, reason_weak_with fmt t (dict_index (weak_skills sm th) t) (difficulty_or_medium q))
           \<or> strategy1 fmt r sm (filter_excluded ex pool) th
             = Some (Some q, reason_weak fmt t (dict_index (weak_skills sm th) t))"
    by blast
  from s show "\<exists>q\<in>set (filter_excluded ex pool). q_skill q = Some t
                \<and> fst (select_next_question fmt r sm pool th ex) = Some q
                \<and> (snd (select_next_question fmt r sm pool th ex)
                      = reason_weak_with fmt t (dict_index (weak_skills sm th) t) (difficulty_or_medium q)
                    \<or> snd (select_next_question fmt r sm pool th ex)
                      = reason_weak fmt t (dict_index (weak_skills sm th) t))"
    using q select_strategy1[OF assms] by (intro bexI[of _ q]) auto
next
  fix t
  assume a: "target_skill (weak_skills sm th) = Some t \<and> distinct (map fst sm)"
  then have t: "target_skill (weak_skills sm th) = Some t" and d: "distinct (map fst sm)" by simp_all
  from dict_index_weak[OF target_skill_in[OF t]]
  show "(t, dict_index (weak_skills sm th) t) \<in> set sm" "dict_index (weak_skills sm th) t < th"
    by simp_all
  have dw: "distinct (map fst (weak_skills sm th))"
    using d by (simp add: weak_skills_def distinct_map_filter)
  show "\<forall>(s, v)\<in>set sm. v < th \<longrightarrow> dict_index (weak_skills sm th) t \<le> v"
  proof (clarify)
    fix s v assume "(s, v) \<in> set sm" "v < th"
    then have "(s, v) \<in> set (weak_skills sm th)" by (simp add: weak_skills_def)
    then show "dict_index (weak_skills sm th) t \<le> v" using t dw by (intro target_skill_least)
  qed
  show "\<exists>pre post. sm = pre @ (t, dict_index (weak_skills sm th) t) # post
          \<and> (\<forall>(s, v)\<in>set pre. v < th \<longrightarrow> dict_index (weak_skills sm th) t < v)"
    using t d by (rule target_skill_first)
qed

theorem fallback_reachability_witness:
  "filter_excluded None [algebra_easy, algebra_hard] \<noteq> []
   \<and> target_skill (weak_skills [(''algebra'', 0.2), (''geometry'', 0.9)] 0.8) = Some ''algebra''
   \<and> distinct (map fst [(''algebra'', 0.2::real), (''geometry'', 0.9)])
   \<and> (\<exists>q\<in>set (filter_excluded None [algebra_easy, algebra_hard]). q_skill q = Some ''algebra'')
   \<and> (\<exists>q\<in>set (filter_excluded None [algebra_easy, algebra_hard]).
         fst (select_next_question two_decimals 0 [(''algebra'', 0.2), (''geometry'', 0.9)]
                [algebra_easy, algebra_hard] 0.8 None) = Some q)
   \<and> filter_excluded None [geometry_easy] \<noteq> []
   \<and> weak_skills [(''geometry'', 0.9)] 0.8 = []
   \<and> strategy1 two_decimals 0 [(''geometry'', 0.9)] (filter_excluded None [geometry_easy]) 0.8 = None
   \<and> target_skill (weak_skills [(''algebra'', 0.2), (''geometry'', 0.2)] 0.8) = Some ''algebra''
   \<and> q_skill geometry_easy \<noteq> Some ''algebra''
   \<and> strategy1 two_decimals 0 [(''algebra'', 0.2), (''geometry'', 0.2)]
         (filter_excluded None [geometry_easy]) 0.8 = None"
proof -
  have a: "filter_excluded None [algebra_easy, algebra_hard] \<noteq> []"
    and g: "filter_excluded None [geometry_easy] \<noteq> []"
    by (simp_all add: filter_excluded_def)
  have t: "target_skill (weak_skills [(''algebra'', 0.2), (''geometry'', 0.9)] 0.8) = Some ''algebra''"
    by (simp add: target_skill_def weak_skills_def)
  have q: "\<exists>q\<in>set (filter_excluded None [algebra_easy, algebra_hard]). q_skill q = Some ''algebra''"
    by (simp add: filter_excluded_def algebra_easy_def)
  have w: "weak_skills [(''geometry'', 0.9)] 0.8 = []"
    by (simp add: weak_skills_def)
  from fallback_reachability [OF a, of two_decimals 0 "[(''algebra'', 0.2), (''geometry'', 0.9)]" "0.8"] t q
  have "\<exists>q\<in>set (filter_excluded None [algebra_easy, algebra_hard]).
         fst (select_next_question two_decimals 0 [(''algebra'', 0.2), (''geometry'', 0.9)]
                [algebra_easy, algebra_hard] 0.8 None) = Some q"
    by blast
  moreover from fallback_reachability [OF g, of two_decimals 0 "[(''geometry'', 0.9)]" "0.8"] w
  have "strategy1 two_decimals 0 [(''geometry'', 0.9)] (filter_excluded None [geometry_easy]) 0.8 = None"
    by blast
  moreover have tie: "target_skill (weak_skills [(''algebra'', 0.2), (''geometry'', 0.2)] 0.8)
                        = Some ''algebra''"
    by (simp add: target_skill_def weak_skills_def dict_index_def)
  moreover have ng: "q_skill geometry_easy \<noteq> Some ''algebra''"
    by (simp add: geometry_easy_def)
  moreover have "\<forall>q\<in>set (filter_excluded None [geometry_easy]). q_skill q \<noteq> Some ''algebra''"
    using ng by (simp add: filter_excluded_def)
  with fallback_reachability [OF g, of two_decimals 0 "[(''algebra'', 0.2), (''geometry'', 0.2)]" "0.8"] tie
  have "strategy1 two_decimals 0 [(''algebra'', 0.2), (''geometry'', 0.2)]
         (filter_excluded None [geometry_easy]) 0.8 = None"
    by blast
  ultimately show ?thesis using a g t q w by simp
qed

text \<open>
  C6. When the weak-skill branch has target \<open>t\<close> of mastery \<open>m\<close> and the filtered pool
  holds a question tagged \<open>t\<close> with a difficulty in the preferred band of \<open>m\<close>, then for
  every draw the result is a question of the pool tagged \<open>t\<close> with a difficulty \<open>d\<close> in that
  band, and the reason is "Targeting weak skill: t (mastery: m) with d difficulty". In
  particular, for threshold 0.8, masteries algebra 0.2 and geometry 0.9 and a pool of
  algebra questions of difficulties easy and hard, every returned question is an algebra
  question of the pool.
\<close>

theorem weak_skill_targeting:
  "(target_skill (weak_skills sm th) = Some t \<and> m = dict_index (weak_skills sm th) t
      \<and> (\<exists>q\<in>set (filter_excluded ex pool).
            q_skill q = Some t \<and> (\<exists>d\<in>preferred_band m. q_difficulty q = Some d))
     \<longrightarrow> (\<exists>q d. select_next_question fmt r sm pool th ex
                   = (Some q, ''Targeting weak skill: '' @ t @ '' (mastery: '' @ fmt m
                               @ '') with '' @ d @ '' difficulty'')
               \<and> q \<in> set pool \<and> q_skill q = Some t \<and> q_difficulty q = Some d
               \<and> d \<in> preferred_band m))
   \<and> ((\<forall>q\<in>set pool'. q_skill q = Some ''algebra''
                       \<and> q_difficulty q \<in> {Some ''easy'', Some ''hard''})
     \<longrightarrow> (\<forall>q reason.
            select_next_question fmt r' [(''algebra'', 0.2), (''geometry'', 0.9)] pool' 0.8 ex'
              = (Some q, reason)
            \<longrightarrow> q \<in> set pool' \<and> q_skill q = Some ''algebra''))"
proof (intro conjI impI allI)
  assume a: "target_skill (weak_skills sm th) = Some t \<and> m = dict_index (weak_skills sm th) t
      \<and> (\<exists>q\<in>set (filter_excluded ex pool).
            q_skill q = Some t \<and> (\<exists>d\<in>preferred_band m. q_difficulty q = Some d))"
  then have t: "target_skill (weak_skills sm th) = Some t"
    and m: "m = dict_index (weak_skills sm th) t" by simp_all
  from a obtain q0 where q0: "q0 \<in> set (filter_excluded ex pool)" "q_skill q0 = Some t"
     "q_difficulty q0 \<in> Some ` preferred_band m" by auto
  then have "q0 \<in> set (preferred_questions (matching_questions (filter_excluded ex pool) t) m)"
    by (simp add: preferred_questions_def matching_questions_def preferred_band_eq)
  then have pref: "preferred_questions (matching_questions (filter_excluded ex pool) t)
                     (dict_index (weak_skills sm th) t) \<noteq> []"
    unfolding m by auto
  have ne: "filter_excluded ex pool \<noteq> []" using q0(1) by auto
  from strategy1_preferred[OF t pref, of fmt r] obtain q d where
    s: "strategy1 fmt r sm (filter_excluded ex pool) th = Some (Some q, reason_weak_with fmt t m d)"
    and q: "q \<in> set (filter_excluded ex pool)" "q_skill q = Some t" "q_difficulty q = Some d"
           "d \<in> preferred_band m"
    unfolding m preferred_band_eq by blast
  have "select_next_question fmt r sm pool th ex = (Some q, reason_weak_with fmt t m d)"
    using ne s by (rule select_strategy1)
  then show "\<exists>q d. select_next_question fmt r sm pool th ex
                   = (Some q, ''Targeting weak skill: '' @ t @ '' (mastery: '' @ fmt m
                               @ '') with '' @ d @ '' difficulty'')
               \<and> q \<in> set pool \<and> q_skill q = Some t \<and> q_difficulty q = Some d
               \<and> d \<in> preferred_band m"
    using q filter_excluded_subset[of ex pool] unfolding reason_weak_with_def by blast
next
  fix q reason
  assume all: "\<forall>q\<in>set pool'. q_skill q = Some ''algebra''
                       \<and> q_difficulty q \<in> {Some ''easy'', Some ''hard''}"
    and res: "select_next_question fmt r' [(''algebra'', 0.2), (''geometry'', 0.9)] pool' 0.8 ex'
              = (Some q, reason)"
  let ?sm = "[(''algebra'', 0.2), (''geometry'', 0.9)] :: real pydict"
  have ne: "filter_excluded ex' pool' \<noteq> []"
    using res by (auto simp add: select_next_question_def Let_def split: if_splits)
  have t: "target_skill (weak_skills ?sm 0.8) = Some ''algebra''"
    by (simp add: target_skill_def weak_skills_def)
  have "matching_questions (filter_excluded ex' pool') ''algebra'' = filter_excluded ex' pool'"
    using all filter_excluded_subset[of ex' pool']
    by (auto simp add: matching_questions_def filter_id_conv)
  then have m: "matching_questions (filter_excluded ex' pool') ''algebra'' \<noteq> []" using ne by simp
  from strategy1_Some[OF t m, of fmt r'] select_strategy1[OF ne, of fmt r' ?sm "0.8"] res
  have "q \<in> set (filter_excluded ex' pool')" by auto
  then show "q \<in> set pool'" using filter_excluded_subset[of ex' pool'] by auto
  then show "q_skill q = Some ''algebra''" using all by simp
qed


theorem weak_skill_targeting_witness:
  "target_skill (weak_skills [(''algebra'', 0.2), (''geometry'', 0.9)] 0.8) = Some ''algebra''
   \<and> dict_index (weak_skills [(''algebra'', 0.2), (''geometry'', 0.9)] 0.8) ''algebra'' = 0.2
   \<and> algebra_easy \<in> set (filter_excluded None [algebra_easy, algebra_hard])
   \<and> q_skill algebra_easy = Some ''algebra'' \<and> ''easy'' \<in> preferred_band 0.2
   \<and> q_difficulty algebra_easy = Some ''easy''
   \<and> q_skill algebra_hard = Some ''algebra''
   \<and> q_difficulty algebra_easy \<in> {Some ''easy'', Some ''hard''}
   \<and> q_difficulty algebra_hard \<in> {Some ''easy'', Some ''hard''}
   \<and> select_next_question two_decimals 0 [(''algebra'', 0.2), (''geometry'', 0.9)]
        [algebra_easy, algebra_hard] 0.8 None
      = (Some algebra_easy, ''Targeting weak skill: algebra (mastery: 0.20) with easy difficulty'')"
  using weak_skill_targeting [of "[(''algebra'', 0.2), (''geometry'', 0.9)]" "0.8" "''algebra''" "0.2" None
               "[algebra_easy, algebra_hard]" two_decimals 0 "[algebra_easy, algebra_hard]" 0 None]
  by (auto simp add: target_skill_def weak_skills_def dict_index_def filter_excluded_def
        preferred_band_def algebra_easy_def algebra_hard_def two_decimals_def nat_digits.simps digit_def)



section \<open>Properties of assessment question sets\<close>

subsection \<open>The shuffle permutes\<close>

lemma mset_swap_list: "i < length xs \<Longrightarrow> j < length xs \<Longrightarrow> mset (swap i j xs) = mset xs"
  unfolding swap_def by (rule mset_swap)

lemma length_swap: "length (swap i j xs) = length xs"
  by (simp add: swap_def)

lemma mset_shuffle_from: "n < length xs \<Longrightarrow> mset (shuffle_from rnd n xs) = mset xs"
proof (induction n arbitrary: xs)
  case 0
  then show ?case by simp
next
  case (Suc n)
  let ?j = "rnd (Suc n) mod (Suc n + 1)"
  have "?j < Suc n + 1" by simp
  then have j: "?j < length xs" using Suc.prems by linarith
  have "n < length (swap (Suc n) ?j xs)" using Suc.prems by (simp add: length_swap)
  then have "mset (shuffle_from rnd n (swap (Suc n) ?j xs)) = mset (swap (Suc n) ?j xs)"
    by (rule Suc.IH)
  also have "\<dots> = mset xs" using Suc.prems j by (rule mset_swap_list)
  finally show ?case by simp
qed

lemma mset_shuffle: "mset (shuffle rnd xs) = mset xs"
proof (cases xs)
  case Nil
  then show ?thesis by (simp add: shuffle_def)
next
  case (Cons x ys)
  then have "length xs - 1 < length xs" by simp
  then show ?thesis unfolding shuffle_def by (rule mset_shuffle_from)
qed


text \<open>
  C9. For a fixed pool and count, two runs with different randomness return the same
  multiset of questions: the randomness only orders the result.
\<close>

theorem selection_independent_of_randomness:
  "mset (select_assessment_questions rnd1 questions cnt)
     = mset (select_assessment_questions rnd2 questions cnt)"
  by (simp add: select_assessment_questions_def mset_shuffle)

theorem selection_independent_of_randomness_witness:
  "mset (select_assessment_questions (\<lambda>i. 0) [algebra_easy, algebra_hard, geometry_easy] 2)
     = mset (select_assessment_questions (\<lambda>i. i) [algebra_easy, algebra_hard, geometry_easy] 2)"
  by (rule selection_independent_of_randomness)

subsection \<open>Size of the selection\<close>

lemma mset_add_to_group:
  "mset (concat (map snd (add_to_group k q g))) = mset (concat (map snd g)) + {#q#}"
  by (induction g) auto

lemma mset_foldl_groups:
  "mset (concat (map snd (foldl (\<lambda>groups q. add_to_group (key q) q groups) g qs)))
     = mset (concat (map snd g)) + mset qs"
  by (induction qs arbitrary: g) (simp_all add: mset_add_to_group)

lemma mset_group_by_skill: "mset (concat (map snd (group_by_skill qs))) = mset qs"
  by (simp add: group_by_skill_def mset_foldl_groups)

lemma mset_sorted_groups:
  "mset (concat (map snd (map (\<lambda>(k, g). (k, sort_key f g)) gs))) = mset (concat (map snd gs))"
  by (induction gs) auto

lemma set_every_nth: "set (every_nth s xs) \<subseteq> set xs"
proof (induction s xs rule: every_nth.induct)
  case (1 s)
  then show ?case by simp
next
  case (2 s x xs)
  have "set (drop (s - 1) xs) \<subseteq> set xs" by (rule set_drop_subset)
  then show ?case using 2 by auto
qed

lemma distinct_every_nth: "distinct xs \<Longrightarrow> distinct (every_nth s xs)"
proof (induction s xs rule: every_nth.induct)
  case (1 s)
  then show ?case by simp
next
  case (2 s x xs)
  have "set (every_nth s (drop (s - 1) xs)) \<subseteq> set (drop (s - 1) xs)" by (rule set_every_nth)
  also have "\<dots> \<subseteq> set xs" by (rule set_drop_subset)
  finally have "x \<notin> set (every_nth s (drop (s - 1) xs))" using "2.prems" by auto
  then show ?case using 2 by simp
qed

lemma slice_to_take: "\<exists>m. slice_to n xs = take m xs"
  by (auto simp add: slice_to_def)

lemma slice_to_nonneg: "0 \<le> n \<Longrightarrow> slice_to n xs = take (nat n) xs"
  by (simp add: slice_to_def)

lemma take_from_group_take:
  "\<exists>m s. take_from_group qps g = take m (every_nth s g)"
  unfolding take_from_group_def Let_def using slice_to_take by blast

lemma set_take_from_group: "set (take_from_group qps g) \<subseteq> set g"
proof -
  obtain m s where e: "take_from_group qps g = take m (every_nth s g)"
    using take_from_group_take by blast
  have "set (take m (every_nth s g)) \<subseteq> set (every_nth s g)" by (rule set_take_subset)
  also have "\<dots> \<subseteq> set g" by (rule set_every_nth)
  finally show ?thesis unfolding e .
qed

lemma distinct_take_from_group: "distinct g \<Longrightarrow> distinct (take_from_group qps g)"
proof -
  assume d: "distinct g"
  obtain m s where e: "take_from_group qps g = take m (every_nth s g)"
    using take_from_group_take by blast
  show ?thesis unfolding e using d by (simp add: distinct_every_nth)
qed

lemma disjoint_subsets: "A \<subseteq> G \<Longrightarrow> B \<subseteq> C \<Longrightarrow> G \<inter> C = {} \<Longrightarrow> A \<inter> B = {}"
  by auto

lemma first_pass_subset:
  "set (concat (map (\<lambda>kg. take_from_group qps (snd kg)) skills)) \<subseteq> set (concat (map snd skills))"
proof (induction skills)
  case Nil
  then show ?case by simp
next
  case (Cons kg skills)
  have "set (take_from_group qps (snd kg)) \<subseteq> set (snd kg)" by (rule set_take_from_group)
  then have "set (take_from_group qps (snd kg))
               \<union> set (concat (map (\<lambda>kg. take_from_group qps (snd kg)) skills))
             \<subseteq> set (snd kg) \<union> set (concat (map snd skills))"
    using Cons.IH by (rule Un_mono)
  then show ?case by simp
qed

lemma first_pass_distinct:
  "distinct (concat (map snd skills)) \<Longrightarrow>
     distinct (concat (map (\<lambda>kg. take_from_group qps (snd kg)) skills))"
proof (induction skills)
  case Nil
  then show ?case by simp
next
  case (Cons kg skills)
  have a: "set (take_from_group qps (snd kg)) \<subseteq> set (snd kg)" by (rule set_take_from_group)
  have b: "set (concat (map (\<lambda>kg. take_from_group qps (snd kg)) skills))
             \<subseteq> set (concat (map snd skills))" by (rule first_pass_subset)
  have d1: "distinct (snd kg)" and d2: "distinct (concat (map snd skills))"
    and d3: "set (snd kg) \<inter> set (concat (map snd skills)) = {}"
    using Cons.prems by simp_all
  have "set (take_from_group qps (snd kg))
          \<inter> set (concat (map (\<lambda>kg. take_from_group qps (snd kg)) skills)) = {}"
    using a b d3 by (rule disjoint_subsets)
  moreover have "distinct (take_from_group qps (snd kg))" using d1 by (rule distinct_take_from_group)
  moreover have "distinct (concat (map (\<lambda>kg. take_from_group qps (snd kg)) skills))"
    using d2 by (rule Cons.IH)
  ultimately show ?case by simp
qed

lemma length_filter_not_in:
  assumes "distinct xs" "distinct sel" "set sel \<subseteq> set xs"
  shows "length (filter (\<lambda>q. q \<notin> set sel) xs) = length xs - length sel"
proof -
  have "length (filter (\<lambda>q. q \<in> set sel) xs) = card ({q. q \<in> set sel} \<inter> set xs)"
    using assms(1) by (rule distinct_length_filter)
  also have "{q. q \<in> set sel} \<inter> set xs = set sel" using assms(3) by auto
  also have "card (set sel) = length sel" using assms(2) by (rule distinct_card)
  finally have a: "length (filter (\<lambda>q. q \<in> set sel) xs) = length sel" .
  have "length (filter (\<lambda>q. q \<in> set sel) xs) + length (filter (\<lambda>q. \<not> q \<in> set sel) xs) = length xs"
    by (rule sum_length_filter_compl)
  then show ?thesis using a by simp
qed

lemma length_selected_before_shuffle:
  assumes "distinct qs" "0 \<le> c"
  shows "int (length (selected_before_shuffle qs c)) = min c (int (length qs))"
proof -
  define cnt where "cnt = min c (int (length qs))"
  define skills where "skills = map (\<lambda>(k, g). (k, sort_key difficulty_rank g)) (group_by_skill qs)"
  define qps where "qps = max 1 (cnt div int (length skills))"
  define sel where "sel = concat (map (\<lambda>kg. take_from_group qps (snd kg)) skills)"
  define remaining where "remaining = sort_key difficulty_rank (filter (\<lambda>q. q \<notin> set sel) (concat (map snd skills)))"
  have m: "mset (concat (map snd skills)) = mset qs"
    unfolding skills_def by (simp only: mset_sorted_groups mset_group_by_skill)
  have dall: "distinct (concat (map snd skills))"
    using mset_eq_imp_distinct_iff[OF m] assms(1) by simp
  have lall: "length (concat (map snd skills)) = length qs"
    using m by (rule mset_eq_length)
  have dsel: "distinct sel" unfolding sel_def using dall by (rule first_pass_distinct)
  have ssel: "set sel \<subseteq> set (concat (map snd skills))" unfolding sel_def by (rule first_pass_subset)
  have "length (filter (\<lambda>q. q \<notin> set sel) (concat (map snd skills))) = length qs - length sel"
    using length_filter_not_in[OF dall dsel ssel] lall by simp
  then have lrem: "length remaining = length qs - length sel"
    unfolding remaining_def by simp
  have "card (set sel) \<le> card (set (concat (map snd skills)))"
    using ssel by (intro card_mono) simp_all
  then have lsel: "length sel \<le> length qs"
    using distinct_card[OF dsel] distinct_card[OF dall] lall by simp
  have c0: "0 \<le> cnt" "cnt \<le> int (length qs)" unfolding cnt_def using assms(2) by simp_all
  have eq: "selected_before_shuffle qs c =
     slice_to cnt (if int (length sel) < cnt then sel @ slice_to (cnt - int (length sel)) remaining else sel)"
    unfolding selected_before_shuffle_def Let_def case_prod_unfold
    unfolding cnt_def[symmetric] skills_def[symmetric, unfolded case_prod_unfold]
    unfolding qps_def[symmetric] sel_def[symmetric] remaining_def[symmetric]
    by (rule refl)
  have "int (length (selected_before_shuffle qs c)) = cnt"
  proof (cases "int (length sel) < cnt")
    case True
    have n: "nat (cnt - int (length sel)) \<le> length remaining"
      using True lrem c0 lsel by linarith
    have "slice_to (cnt - int (length sel)) remaining = take (nat (cnt - int (length sel))) remaining"
      using True by (simp add: slice_to_nonneg)
    then have "length (sel @ slice_to (cnt - int (length sel)) remaining)
                 = length sel + nat (cnt - int (length sel))"
      using n by simp
    then have l: "int (length (sel @ slice_to (cnt - int (length sel)) remaining)) = cnt"
      using True by linarith
    have "selected_before_shuffle qs c
            = take (nat cnt) (sel @ slice_to (cnt - int (length sel)) remaining)"
      unfolding eq using True c0(1) by (simp add: slice_to_nonneg)
    then have "length (selected_before_shuffle qs c)
            = min (length (sel @ slice_to (cnt - int (length sel)) remaining)) (nat cnt)"
      by (simp only: length_take)
    then show ?thesis using l c0(1) by linarith
  next
    case False
    have "selected_before_shuffle qs c = take (nat cnt) sel"
      unfolding eq using False c0(1) by (simp add: slice_to_nonneg)
    then have "length (selected_before_shuffle qs c) = min (length sel) (nat cnt)"
      by (simp only: length_take)
    then show ?thesis using False c0(1) by linarith
  qed
  then show ?thesis unfolding cnt_def .
qed

lemma length_shuffle: "length (shuffle rnd xs) = length xs"
proof -
  have "mset (shuffle rnd xs) = mset xs" by (rule mset_shuffle)
  then show ?thesis by (rule mset_eq_length)
qed

lemma set_shuffle: "set (shuffle rnd xs) = set xs"
proof -
  have "mset (shuffle rnd xs) = mset xs" by (rule mset_shuffle)
  then show ?thesis by (rule mset_eq_setD)
qed

lemma length_select:
  assumes "distinct qs" "0 \<le> c"
  shows "int (length (select_assessment_questions rnd qs c)) = min c (int (length qs))"
proof (cases "qs = []")
  case True
  then show ?thesis using assms(2) by (simp add: select_assessment_questions_def)
next
  case False
  then have "select_assessment_questions rnd qs c = shuffle rnd (selected_before_shuffle qs c)"
    by (simp add: select_assessment_questions_def)
  then show ?thesis
    using length_selected_before_shuffle[OF assms] by (simp only: length_shuffle)
qed

lemma map_fst_add_to_group:
  "map fst (add_to_group k q g) = (if k \<in> set (map fst g) then map fst g else map fst g @ [k])"
proof (induction g)
  case Nil
  then show ?case by simp
next
  case (Cons kg g)
  obtain k' g' where kg: "kg = (k', g')" by (cases kg)
  show ?case using Cons.IH unfolding kg by (cases "k = k'") simp_all
qed

lemma keys_add_to_group:
  "set (map fst (add_to_group k q g)) = insert k (set (map fst g))"
  unfolding map_fst_add_to_group by auto

lemma distinct_keys_add_to_group:
  "distinct (map fst g) \<Longrightarrow> distinct (map fst (add_to_group k q g))"
proof (induction g)
  case Nil
  then show ?case by simp
next
  case (Cons kg g)
  obtain k' g' where kg: "kg = (k', g')" by (cases kg)
  show ?case
  proof (cases "k = k'")
    case True
    then show ?thesis using Cons.prems kg by simp
  next
    case False
    have "k' \<notin> set (map fst (add_to_group k q g))"
      using Cons.prems kg False unfolding keys_add_to_group by simp
    then show ?thesis using Cons kg False by simp
  qed
qed

lemma groups_ok_add: "groups_ok key g \<Longrightarrow> groups_ok key (add_to_group (key q) q g)"
  by (induction g) (auto simp add: groups_ok_def)

lemma foldl_groups_inv:
  "groups_ok key g \<Longrightarrow> distinct (map fst g) \<Longrightarrow>
     groups_ok key (foldl (\<lambda>groups q. add_to_group (key q) q groups) g qs)
     \<and> distinct (map fst (foldl (\<lambda>groups q. add_to_group (key q) q groups) g qs))
     \<and> set (map fst (foldl (\<lambda>groups q. add_to_group (key q) q groups) g qs))
          = set (map fst g) \<union> key ` set qs"
proof (induction qs arbitrary: g)
  case Nil
  then show ?case by simp
next
  case (Cons q qs)
  have a: "groups_ok key (add_to_group (key q) q g)" using Cons.prems(1) by (rule groups_ok_add)
  have b: "distinct (map fst (add_to_group (key q) q g))"
    using Cons.prems(2) by (rule distinct_keys_add_to_group)
  from Cons.IH[OF a b] show ?case unfolding keys_add_to_group by auto
qed

lemma group_by_skill_inv:
  "groups_ok skill_key (group_by_skill qs)"
  "distinct (map fst (group_by_skill qs))"
  "set (map fst (group_by_skill qs)) = skill_key ` set qs"
  using foldl_groups_inv[of skill_key "[]" qs]
  by (simp_all add: group_by_skill_def groups_ok_def)

lemma length_group_by_skill: "length (group_by_skill qs) = card (skill_key ` set qs)"
proof -
  have "length (group_by_skill qs) = length (map fst (group_by_skill qs))" by simp
  also have "\<dots> = card (set (map fst (group_by_skill qs)))"
    using group_by_skill_inv(2)[of qs] by (rule distinct_card[symmetric])
  finally show ?thesis unfolding group_by_skill_inv(3) .
qed

subsection \<open>Every skill is represented\<close>

lemma groups_ok_sorted:
  "groups_ok key g \<Longrightarrow> groups_ok key (map (\<lambda>kg. (fst kg, sort_key f (snd kg))) g)"
proof (induction g)
  case Nil
  then show ?case by (simp add: groups_ok_def)
next
  case (Cons kg g)
  have "set (sort_key f (snd kg)) = set (snd kg)" by simp
  moreover have "(sort_key f (snd kg) = []) = (snd kg = [])"
    by (metis length_sort length_0_conv)
  ultimately show ?case using Cons by (simp add: groups_ok_def list_all_iff)
qed

lemma every_nth_hd: "g \<noteq> [] \<Longrightarrow> every_nth s g = hd g # every_nth s (drop (s - 1) (tl g))"
  by (cases g) simp_all

lemma take_from_group_hd:
  assumes "g \<noteq> []" "1 \<le> qps"
  shows "hd g \<in> set (take_from_group qps g)"
proof -
  define s where "s = nat (max 1 (int (length g) div qps))"
  have "take_from_group qps g = take (nat qps) (every_nth s g)"
    unfolding take_from_group_def Let_def s_def using assms(2) by (simp add: slice_to_nonneg)
  also have "\<dots> = take (nat qps) (hd g # every_nth s (drop (s - 1) (tl g)))"
    using every_nth_hd[OF assms(1)] by simp
  also have "\<dots> = hd g # take (nat qps - 1) (every_nth s (drop (s - 1) (tl g)))"
    using assms(2) by (simp add: take_Cons')
  finally show ?thesis by simp
qed

lemma length_take_from_group: "0 \<le> qps \<Longrightarrow> length (take_from_group qps g) \<le> nat qps"
  unfolding take_from_group_def Let_def by (simp add: slice_to_nonneg)

lemma length_first_pass:
  "0 \<le> qps \<Longrightarrow>
     length (concat (map (\<lambda>kg. take_from_group qps (snd kg)) skills)) \<le> length skills * nat qps"
proof (induction skills)
  case Nil
  then show ?case by simp
next
  case (Cons kg skills)
  have "length (take_from_group qps (snd kg)) \<le> nat qps"
    using Cons.prems by (rule length_take_from_group)
  then show ?case using Cons by simp
qed

lemma first_pass_represents:
  assumes "groups_ok key skills" "1 \<le> qps" "s \<in> set (map fst skills)"
  shows "\<exists>q\<in>set (concat (map (\<lambda>kg. take_from_group qps (snd kg)) skills)). key q = s"
proof -
  from assms(3) obtain kg where kg: "kg \<in> set skills" "fst kg = s" by auto
  then have ne: "snd kg \<noteq> []" and all: "\<forall>q\<in>set (snd kg). key q = s"
    using assms(1) by (auto simp add: groups_ok_def list_all_iff)
  have h: "hd (snd kg) \<in> set (take_from_group qps (snd kg))"
    using ne assms(2) by (rule take_from_group_hd)
  have "hd (snd kg) \<in> set (snd kg)" using ne by simp
  then have "key (hd (snd kg)) = s" using all by simp
  moreover have "hd (snd kg) \<in> set (concat (map (\<lambda>kg. take_from_group qps (snd kg)) skills))"
    using h kg(1) by auto
  ultimately show ?thesis by (intro bexI)
qed

lemma skills_represented:
  assumes "qs \<noteq> []" "int (card (skill_key ` set qs)) \<le> c"
  shows "\<forall>s\<in>skill_key ` set qs. \<exists>q\<in>set (select_assessment_questions rnd qs c). skill_key q = s"
proof -
  define cnt where "cnt = min c (int (length qs))"
  define skills where "skills = map (\<lambda>kg. (fst kg, sort_key difficulty_rank (snd kg))) (group_by_skill qs)"
  define qps where "qps = max 1 (cnt div int (length skills))"
  define sel where "sel = concat (map (\<lambda>kg. take_from_group qps (snd kg)) skills)"
  define remaining where "remaining = sort_key difficulty_rank (filter (\<lambda>q. q \<notin> set sel) (concat (map snd skills)))"
  have eq: "selected_before_shuffle qs c =
     slice_to cnt (if int (length sel) < cnt then sel @ slice_to (cnt - int (length sel)) remaining else sel)"
    unfolding selected_before_shuffle_def Let_def case_prod_unfold
    unfolding cnt_def[symmetric] skills_def[symmetric]
    unfolding qps_def[symmetric] sel_def[symmetric] remaining_def[symmetric]
    by (rule refl)
  have lk: "length skills = card (skill_key ` set qs)"
    unfolding skills_def by (simp add: length_group_by_skill)
  have "card (skill_key ` set qs) \<le> card (set qs)" by (rule card_image_le) simp
  also have "\<dots> \<le> length qs" by (rule card_length)
  finally have kn: "length skills \<le> length qs" unfolding lk .
  have "0 < card (skill_key ` set qs)" using assms(1) by (simp add: card_gt_0_iff)
  then have k0: "0 < int (length skills)" unfolding lk by simp
  have kc: "int (length skills) \<le> cnt" unfolding cnt_def using assms(2) kn lk by simp
  have d1: "1 \<le> cnt div int (length skills)"
    using pos_imp_zdiv_pos_iff[OF k0, of cnt] kc by simp
  then have q1: "1 \<le> qps" and qe: "qps = cnt div int (length skills)" unfolding qps_def by simp_all
  have "cnt = int (length skills) * (cnt div int (length skills)) + cnt mod int (length skills)"
    by simp
  moreover have "0 \<le> cnt mod int (length skills)" using k0 by simp
  ultimately have kq: "int (length skills) * qps \<le> cnt" unfolding qe by linarith
  have "length sel \<le> length skills * nat qps"
    unfolding sel_def using q1 by (intro length_first_pass) simp
  then have "int (length sel) \<le> int (length skills * nat qps)" by (simp only: of_nat_le_iff)
  also have "\<dots> = int (length skills) * qps" using q1 by simp
  finally have ls: "int (length sel) \<le> cnt" using kq by simp
  have c0: "0 \<le> cnt" using kc k0 by simp
  have sub: "set sel \<subseteq> set (selected_before_shuffle qs c)"
  proof (cases "int (length sel) < cnt")
    case True
    have "selected_before_shuffle qs c
            = take (nat cnt) (sel @ slice_to (cnt - int (length sel)) remaining)"
      unfolding eq using True c0 by (simp add: slice_to_nonneg)
    also have "\<dots> = sel @ take (nat cnt - length sel) (slice_to (cnt - int (length sel)) remaining)"
      using ls c0 by simp
    finally show ?thesis by simp
  next
    case False
    have "selected_before_shuffle qs c = take (nat cnt) sel"
      unfolding eq using False c0 by (simp add: slice_to_nonneg)
    also have "\<dots> = sel" using ls c0 by simp
    finally show ?thesis by simp
  qed
  have ok: "groups_ok skill_key skills"
    unfolding skills_def using group_by_skill_inv(1) by (rule groups_ok_sorted)
  have keys: "set (map fst skills) = skill_key ` set qs"
    unfolding skills_def using group_by_skill_inv(3)[of qs] by (simp add: comp_def)
  have res: "set (select_assessment_questions rnd qs c) = set (selected_before_shuffle qs c)"
    using assms(1) by (simp add: select_assessment_questions_def set_shuffle)
  show ?thesis
  proof
    fix s assume "s \<in> skill_key ` set qs"
    then have "s \<in> set (map fst skills)" unfolding keys .
    from first_pass_represents[OF ok q1 this] obtain q where "q \<in> set sel" "skill_key q = s"
      unfolding sel_def by blast
    then have "q \<in> set (select_assessment_questions rnd qs c)" "skill_key q = s"
      using sub res by auto
    then show "\<exists>q\<in>set (select_assessment_questions rnd qs c). skill_key q = s" by (intro bexI)
  qed
qed


text \<open>
  C8, as claimed: for every pool and count the result has exactly
  \<open>min(count, len(pool))\<close> questions. It does not when the pool holds the same question
  twice (the fill-up pass drops every question equal to a selected one: the pool
  algebra, geometry, geometry with count 10 gives 2 questions, not 3), nor for a negative
  count (the pool algebra, geometry with count \<open>-1\<close> gives 1 question).
\<close>

theorem sizing_fails_on_duplicates_and_negative_count:
  "length (select_assessment_questions (\<lambda>i. 0) [algebra_easy, geometry_easy, geometry_easy] 10) = 2
   \<and> min (10::int) (int (length [algebra_easy, geometry_easy, geometry_easy])) = 3
   \<and> length (select_assessment_questions (\<lambda>i. 0) [algebra_easy, geometry_easy] (- 1)) = 1
   \<and> min (- 1::int) (int (length [algebra_easy, geometry_easy])) = - 1"
  by code_simp

text \<open>
  C8, amended: for every pool of pairwise distinct questions and every count \<open>\<ge> 0\<close> the
  result has exactly \<open>min(count, len(pool))\<close> questions: 7 for a pool of 7 with count 10,
  and 10 for a pool of 50 with count 10, where both skills \<open>a\<close> and \<open>b\<close> of a pool spanning
  two skills are represented; the empty pool gives the empty list.
\<close>

theorem assessment_set_sizing:
  fixes questions :: "'a question_scheme list"
  assumes "distinct questions" "0 \<le> cnt"
  shows "int (length (select_assessment_questions rnd questions cnt))
           = min cnt (int (length questions))
       \<and> (length questions = 7 \<and> cnt = 10 \<longrightarrow>
            length (select_assessment_questions rnd questions cnt) = 7)
       \<and> (length questions = 50 \<and> cnt = 10 \<and> skill_key ` set questions = {a, b} \<longrightarrow>
            length (select_assessment_questions rnd questions cnt) = 10
            \<and> (\<exists>q\<in>set (select_assessment_questions rnd questions cnt). skill_key q = a)
            \<and> (\<exists>q\<in>set (select_assessment_questions rnd questions cnt). skill_key q = b))
       \<and> select_assessment_questions rnd ([] :: 'a question_scheme list) cnt = []"
proof (intro conjI impI)
  show len: "int (length (select_assessment_questions rnd questions cnt))
           = min cnt (int (length questions))"
    using assms by (rule length_select)
  show "select_assessment_questions rnd ([] :: 'a question_scheme list) cnt = []"
    by (simp add: select_assessment_questions_def)
  {
    assume "length questions = 7 \<and> cnt = 10"
    then show "length (select_assessment_questions rnd questions cnt) = 7"
      using len by simp
  }
  assume a: "length questions = 50 \<and> cnt = 10 \<and> skill_key ` set questions = {a, b}"
  then show "length (select_assessment_questions rnd questions cnt) = 10"
    using len by simp
  have ne: "questions \<noteq> []" using a by auto
  have "card (skill_key ` set questions) \<le> 2"
    using a by (simp add: card_insert_if)
  then have "int (card (skill_key ` set questions)) \<le> cnt" using a by simp
  from skills_represented[OF ne this, of rnd] a
  show "\<exists>q\<in>set (select_assessment_questions rnd questions cnt). skill_key q = a"
    and "\<exists>q\<in>set (select_assessment_questions rnd questions cnt). skill_key q = b"
    by simp_all
qed

lemma distinct_sample_pool_7: "distinct (sample_pool 7)"
  by code_simp

lemma distinct_sample_pool_50: "distinct (sample_pool 50)"
  by code_simp

lemma skills_sample_pool_50: "skill_key ` set (sample_pool 50) = {''algebra'', ''geometry''}"
  by code_simp

theorem assessment_set_sizing_witness:
  "distinct (sample_pool 7) \<and> (0::int) \<le> 10 \<and> length (sample_pool 7) = 7
   \<and> length (select_assessment_questions (\<lambda>i. 0) (sample_pool 7) 10) = 7
   \<and> distinct (sample_pool 50) \<and> length (sample_pool 50) = 50
   \<and> skill_key ` set (sample_pool 50) = {''algebra'', ''geometry''}
   \<and> length (select_assessment_questions (\<lambda>i. 0) (sample_pool 50) 10) = 10
   \<and> (\<exists>q\<in>set (select_assessment_questions (\<lambda>i. 0) (sample_pool 50) 10).
         skill_key q = ''algebra'')
   \<and> (\<exists>q\<in>set (select_assessment_questions (\<lambda>i. 0) (sample_pool 50) 10).
         skill_key q = ''geometry'')"
proof -
  have l7: "length (sample_pool 7) = 7" and l50: "length (sample_pool 50) = 50"
    by (simp_all add: sample_pool_def)
  have c: "(0::int) \<le> 10" by simp
  from assessment_set_sizing [OF distinct_sample_pool_7 c, where rnd = "\<lambda>i. 0"
      and a = "''algebra''" and b = "''geometry''"] l7
  have a: "length (select_assessment_questions (\<lambda>i. 0) (sample_pool 7) 10) = 7"
    by simp
  from assessment_set_sizing [OF distinct_sample_pool_50 c, where rnd = "\<lambda>i. 0"
      and a = "''algebra''" and b = "''geometry''"] l50 skills_sample_pool_50
  have b: "length (select_assessment_questions (\<lambda>i. 0) (sample_pool 50) 10) = 10
     \<and> (\<exists>q\<in>set (select_assessment_questions (\<lambda>i. 0) (sample_pool 50) 10).
         skill_key q = ''algebra'')
     \<and> (\<exists>q\<in>set (select_assessment_questions (\<lambda>i. 0) (sample_pool 50) 10).
         skill_key q = ''geometry'')"
    by simp
  show ?thesis
    using a b l7 l50 distinct_sample_pool_7 distinct_sample_pool_50 skills_sample_pool_50
    by simp
qed

end
